theory Spec2Isabelle
  imports Complex_Main "HOL-Library.Multiset"
begin

section \<open>Floating-point values\<close>

text \<open>
  The programs compute on numpy \<open>float64\<close> arrays. A value is modelled as a real number or
  one of the three non-finite values. Rounding, overflow and the sign of zero are not
  modelled: a finite result is the exact real result.
\<close>

datatype fl = Fin real | PInf | NInf | NaN

definition inf_of :: "real \<Rightarrow> fl" where
  "inf_of s = (if s = 0 then NaN else if 0 < s then PInf else NInf)"

fun sgn_fl :: "fl \<Rightarrow> real" where
  "sgn_fl (Fin x) = sgn x"
| "sgn_fl PInf = 1"
| "sgn_fl NInf = - 1"
| "sgn_fl NaN = 0"

fun fl_mul :: "fl \<Rightarrow> fl \<Rightarrow> fl" where
  "fl_mul NaN b = NaN"
| "fl_mul a NaN = NaN"
| "fl_mul (Fin x) (Fin y) = Fin (x * y)"
| "fl_mul a b = inf_of (sgn_fl a * sgn_fl b)"

fun fl_div :: "fl \<Rightarrow> fl \<Rightarrow> fl" where
  "fl_div NaN b = NaN"
| "fl_div a NaN = NaN"
| "fl_div (Fin x) (Fin y) = (if y = 0 then inf_of x else Fin (x / y))"
| "fl_div (Fin x) b = Fin 0"
| "fl_div a (Fin y) = inf_of (sgn_fl a * (if 0 \<le> y then 1 else - 1))"
| "fl_div a b = NaN"

fun fl_add :: "fl \<Rightarrow> fl \<Rightarrow> fl" where
  "fl_add NaN b = NaN"
| "fl_add a NaN = NaN"
| "fl_add (Fin x) (Fin y) = Fin (x + y)"
| "fl_add (Fin x) b = b"
| "fl_add a (Fin y) = a"
| "fl_add a b = (if a = b then a else NaN)"

fun fl_sub :: "fl \<Rightarrow> fl \<Rightarrow> fl" where
  "fl_sub NaN b = NaN"
| "fl_sub a NaN = NaN"
| "fl_sub (Fin x) (Fin y) = Fin (x - y)"
| "fl_sub (Fin x) PInf = NInf"
| "fl_sub (Fin x) NInf = PInf"
| "fl_sub a (Fin y) = a"
| "fl_sub a b = (if a = b then NaN else a)"

fun fl_neg :: "fl \<Rightarrow> fl" where
  "fl_neg (Fin x) = Fin (- x)"
| "fl_neg PInf = NInf"
| "fl_neg NInf = PInf"
| "fl_neg NaN = NaN"

fun fl_log2 :: "fl \<Rightarrow> fl" where
  "fl_log2 (Fin x) = (if x < 0 then NaN else if x = 0 then NInf else Fin (log 2 x))"
| "fl_log2 PInf = PInf"
| "fl_log2 NInf = NaN"
| "fl_log2 NaN = NaN"

text \<open>The order in which a sort places values: ascending, NaN after everything else.\<close>

fun fl_le :: "fl \<Rightarrow> fl \<Rightarrow> bool" where
  "fl_le a NaN = True"
| "fl_le NaN b = False"
| "fl_le NInf b = True"
| "fl_le a NInf = False"
| "fl_le a PInf = True"
| "fl_le PInf b = False"
| "fl_le (Fin x) (Fin y) = (x \<le> y)"

text \<open>\<open>np.minimum\<close> and \<open>np.maximum\<close>: a NaN operand gives NaN.\<close>

definition minimum :: "fl \<Rightarrow> fl \<Rightarrow> fl" where
  "minimum a b = (if a = NaN \<or> b = NaN then NaN else if fl_le a b then a else b)"

definition maximum :: "fl \<Rightarrow> fl \<Rightarrow> fl" where
  "maximum a b = (if a = NaN \<or> b = NaN then NaN else if fl_le a b then b else a)"

text \<open>\<open>np.clip(x, lo, hi)\<close> is \<open>minimum(maximum(x, lo), hi)\<close>.\<close>

definition clip :: "fl \<Rightarrow> fl \<Rightarrow> fl \<Rightarrow> fl" where
  "clip lo hi x = minimum (maximum x lo) hi"

section \<open>Array primitives\<close>

text \<open>\<open>ufunc.accumulate\<close>: the running result of a binary operation, left to right.\<close>

fun accumulate_from :: "('a \<Rightarrow> 'a \<Rightarrow> 'a) \<Rightarrow> 'a \<Rightarrow> 'a list \<Rightarrow> 'a list" where
  "accumulate_from f acc [] = []"
| "accumulate_from f acc (x # xs) = f acc x # accumulate_from f (f acc x) xs"

fun accumulate :: "('a \<Rightarrow> 'a \<Rightarrow> 'a) \<Rightarrow> 'a list \<Rightarrow> 'a list" where
  "accumulate f [] = []"
| "accumulate f (x # xs) = x # accumulate_from f x xs"

text \<open>
  \<open>res = np.empty(n); res[idx] = vals\<close>: cell \<open>idx[k]\<close> receives \<open>vals[k]\<close>, in the order of
  \<open>k\<close>. \<open>np.empty\<close> leaves the cells uninitialised; the model starts from a given filler \<open>d\<close>,
  which no cell keeps when \<open>idx\<close> is a permutation of the positions.
\<close>

definition scatter :: "'a \<Rightarrow> nat \<Rightarrow> nat list \<Rightarrow> 'a list \<Rightarrow> 'a list" where
  "scatter d n idx vals = fold (\<lambda>(i, v) res. res[i := v]) (zip idx vals) (replicate n d)"

text \<open>\<open>xs[idx]\<close>: the cells of \<open>xs\<close> at the positions \<open>idx\<close>, in that order.\<close>

definition take_idx :: "'a list \<Rightarrow> nat list \<Rightarrow> 'a list" where
  "take_idx xs idx = map (\<lambda>i. xs ! i) idx"

text \<open>
  The contract of \<open>np.argsort\<close>: the result is a permutation of the positions that puts the
  values in ascending order. The default kind is quicksort, which is not stable, so the
  order among equal values is left open; the sorting routine is a parameter of the model.
\<close>

definition is_argsort :: "nat list \<Rightarrow> fl list \<Rightarrow> bool" where
  "is_argsort order xs \<longleftrightarrow>
     sort order = [0..<length xs] \<and> sorted_wrt fl_le (take_idx xs order)"

section \<open>Benjamini-Hochberg adjustment (differential\_expression.py)\<close>

definition benjamini_hochberg :: "(fl list \<Rightarrow> nat list) \<Rightarrow> fl list \<Rightarrow> fl list" where
  "benjamini_hochberg argsort p_values =
     (let n = length p_values;
          order = argsort p_values;
          ranks = scatter 0 n order [1..<n + 1];
          adjusted = map2 (\<lambda>p r. fl_div (fl_mul p (Fin (real n))) (Fin (real r))) p_values ranks;
          adjusted = rev (accumulate minimum (rev (take_idx adjusted order)));
          adjusted = map (clip (Fin 0) (Fin 1)) adjusted
      in scatter (Fin 0) n order adjusted)"

text \<open>
  The adjustment as the specification words it, on real p-values: the candidate of the
  p-value at rank \<open>k\<close> (counted from 1) of \<open>n\<close> is \<open>p * n / k\<close>; position \<open>k\<close> of the
  list below holds rank \<open>k + 1\<close>. The adjusted value of a rank is the running minimum of
  the candidates from the largest rank down to it, clipped to the unit interval.
\<close>

definition candidates :: "nat list \<Rightarrow> real list \<Rightarrow> real list" where
  "candidates order ps =
     map (\<lambda>k. ps ! (order ! k) * real (length ps) / real (k + 1)) [0..<length ps]"

definition clip01 :: "real \<Rightarrow> real" where
  "clip01 x = min (max x 0) 1"

definition adjusted_by_rank :: "nat list \<Rightarrow> real list \<Rightarrow> real list" where
  "adjusted_by_rank order ps = map clip01 (rev (accumulate min (rev (candidates order ps))))"

section \<open>Tables\<close>

text \<open>
  Both programs raise \<open>ValueError\<close> with a message for a failed validation; a lookup of a
  column that a frame does not have raises \<open>KeyError\<close>.
\<close>

datatype error = ValueError string | KeyError string

text \<open>
  A data frame read from a CSV file: the column names in file order (\<open>read_csv\<close> makes them
  distinct) and the rows. A row carries the text of its \<open>gene_id\<close> cell and its numeric
  cells by column name. Numeric cells of an input file are finite numbers; empty cells
  are not modelled.
\<close>

record 'a row =
  gene :: string
  cell :: "string \<Rightarrow> 'a"

record 'a frame =
  columns :: "string list"
  rows :: "'a row list"

text \<open>The metadata file: its column names and, per row, the sample id and the condition.\<close>

record metadata =
  meta_columns :: "string list"
  meta_rows :: "(string \<times> string) list"

text \<open>\<open>sep.join(xs)\<close>\<close>

fun join :: "string \<Rightarrow> string list \<Rightarrow> string" where
  "join sep [] = []"
| "join sep [x] = x"
| "join sep (x # y # ys) = x @ sep @ join sep (y # ys)"

text \<open>\<open>Series.unique()\<close>: the distinct values in order of first appearance.\<close>

definition unique :: "'a list \<Rightarrow> 'a list" where
  "unique xs = rev (remdups (rev xs))"

text \<open>\<open>[s for s in samples if s not in counts.columns]\<close>\<close>

definition missing_from :: "'a frame \<Rightarrow> string list \<Rightarrow> string list" where
  "missing_from counts samples = filter (\<lambda>s. s \<notin> set (columns counts)) samples"

section \<open>Count normalizer (preprocess\_counts.py)\<close>

text \<open>\<open>counts.sum()\<close>: the total of one column.\<close>

definition column_sum :: "real row list \<Rightarrow> string \<Rightarrow> real" where
  "column_sum rs c = sum_list (map (\<lambda>r. cell r c) rs)"

definition log2_cpm :: "real frame \<Rightarrow> fl frame" where
  "log2_cpm counts =
     \<lparr>columns = columns counts,
      rows = map (\<lambda>r. \<lparr>gene = gene r,
                         cell = (\<lambda>c. fl_log2 (fl_add
                                   (fl_mul (fl_div (Fin (cell r c)) (Fin (column_sum (rows counts) c)))
                                           (Fin 1000000))
                                   (Fin 1)))\<rparr>)
                 (rows counts)\<rparr>"

text \<open>\<open>drop_duplicates(subset=["gene_id"])\<close>: the first row of every gene label is kept.\<close>

fun dedup_from :: "string list \<Rightarrow> 'a row list \<Rightarrow> 'a row list" where
  "dedup_from seen [] = []"
| "dedup_from seen (r # rs) =
     (if gene r \<in> set seen then dedup_from seen rs else r # dedup_from (gene r # seen) rs)"

definition drop_duplicates :: "'a row list \<Rightarrow> 'a row list" where
  "drop_duplicates rs = dedup_from [] rs"

text \<open>
  The symbol remap, given the id-to-symbol map \<open>ann_map\<close> built from the annotation table
  (the detection of its columns is not modelled): every row is relabelled by its symbol
  when it has one, the helper column \<open>gene_symbol\<close> is dropped, duplicate labels are removed.
\<close>

definition apply_annotations :: "(string \<rightharpoonup> string) \<Rightarrow> real frame \<Rightarrow> real frame" where
  "apply_annotations ann_map counts =
     \<lparr>columns = filter (\<lambda>c. c \<noteq> ''gene_symbol'') (columns counts),
      rows = drop_duplicates
               (map (\<lambda>r. r\<lparr>gene := (case ann_map (gene r) of Some s \<Rightarrow> s | None \<Rightarrow> gene r)\<rparr>)
                    (rows counts))\<rparr>"

text \<open>
  \<open>main\<close> of the normalizer. \<open>ann\<close> is \<open>None\<close> when no annotation table is given or its
  columns are not recognised.
\<close>

definition preprocess_counts_main ::
  "(string \<rightharpoonup> string) option \<Rightarrow> real frame \<Rightarrow> metadata \<Rightarrow> error + fl frame" where
  "preprocess_counts_main ann counts md =
     (if ''gene_id'' \<notin> set (columns counts)
      then Inl (ValueError ''Counts file must contain a 'gene_id' column.'')
      else if \<not> {''sample_id'', ''condition''} \<subseteq> set (meta_columns md)
      then Inl (ValueError ''Metadata must contain 'sample_id' and 'condition' columns.'')
      else
        let counts = (case ann of None \<Rightarrow> counts | Some m \<Rightarrow> apply_annotations m counts);
            sample_ids = map fst (meta_rows md);
            missing = missing_from counts sample_ids
        in if missing \<noteq> []
           then Inl (ValueError (''Samples missing from counts matrix: '' @ join '', '' missing))
           else if ''gene_id'' \<in> set sample_ids
           then Inl (KeyError ''['gene_id'] not in index'')
           else
             let normalized = log2_cpm \<lparr>columns = sample_ids, rows = rows counts\<rparr>
             in Inr \<lparr>columns = ''gene_id'' # columns normalized, rows = rows normalized\<rparr>)"

section \<open>Differential testing engine (differential\_expression.py)\<close>

text \<open>\<open>a_vals.mean()\<close>; the mean of no values is \<open>0 / 0\<close>.\<close>

definition mean :: "real list \<Rightarrow> fl" where
  "mean xs = fl_div (Fin (sum_list xs)) (Fin (real (length xs)))"

text \<open>
  \<open>scipy.stats.ttest_ind(a, b, equal_var=False)\<close> is a library routine outside the
  repository; the engine below takes the test it calls as a parameter. \<open>ttest_ind\<close> is a
  model of the library routine, used where a statement depends on what the routine
  returns. It is the Welch test the specification names: the statistic is the difference
  of the means over \<open>sqrt (v1 / n1 + v2 / n2)\<close> with the sample variances, the degrees of
  freedom are the Welch-Satterthwaite approximation, and the two-sided tail probability of
  Student's distribution is the parameter \<open>t_sf\<close>, applied to the degrees of freedom and
  the absolute statistic. The quotients are evaluated as floating-point division
  evaluates them: a group of fewer than two values has the sample variance \<open>0 / 0\<close>, a zero
  denominator gives the statistic \<open>0 / 0\<close> when the means agree and an infinite statistic,
  with tail probability 0, when they differ.
\<close>

definition mean_real :: "real list \<Rightarrow> real" where
  "mean_real xs = sum_list xs / real (length xs)"

definition variance :: "real list \<Rightarrow> real" where
  "variance xs = sum_list (map (\<lambda>x. (x - mean_real xs)\<^sup>2) xs) / (real (length xs) - 1)"

definition ttest_ind :: "(real \<Rightarrow> real \<Rightarrow> real) \<Rightarrow> real list \<Rightarrow> real list \<Rightarrow> fl" where
  "ttest_ind t_sf a b =
     (if length a < 2 \<or> length b < 2 then NaN
      else
        let n1 = real (length a); n2 = real (length b);
            vn1 = variance a / n1; vn2 = variance b / n2;
            df = (vn1 + vn2)\<^sup>2 / (vn1\<^sup>2 / (n1 - 1) + vn2\<^sup>2 / (n2 - 1));
            denom = sqrt (vn1 + vn2);
            d = mean_real a - mean_real b
        in if denom = 0 then (if d = 0 then NaN else Fin 0)
           else Fin (t_sf df \<bar>d / denom\<bar>))"

text \<open>One record of the loop over the genes, and the record with its \<open>p_adj\<close> column.\<close>

record test_record =
  gene_id :: string
  mean_a :: fl
  mean_b :: fl
  log2_fc :: fl
  p_value :: fl

record result_record = test_record +
  p_adj :: fl

record result_table =
  out_columns :: "string list"
  out_rows :: "result_record list"

definition with_p_adj :: "test_record \<Rightarrow> fl \<Rightarrow> result_record" where
  "with_p_adj r q =
     \<lparr>gene_id = gene_id r, mean_a = mean_a r, mean_b = mean_b r, log2_fc = log2_fc r,
      p_value = p_value r, p_adj = q\<rparr>"

text \<open>\<open>metadata.loc[metadata["condition"] == cond, "sample_id"].tolist()\<close>\<close>

definition samples_of :: "metadata \<Rightarrow> string \<Rightarrow> string list" where
  "samples_of md cond = map fst (filter (\<lambda>(s, c). c = cond) (meta_rows md))"

text \<open>
  \<open>group_b.loc[gene]\<close>: the rows labelled \<open>gene\<close>. The label is the unique gene key, so this
  is one row; with a repeated label \<open>loc\<close> returns a frame of several rows, which the
  per-gene test of the model does not cover (the theorems on records assume distinct
  labels).
\<close>

definition loc :: "'a row list \<Rightarrow> string \<Rightarrow> 'a row list" where
  "loc rs g = filter (\<lambda>r. gene r = g) rs"

text \<open>
  The loop over \<open>group_a.iterrows()\<close>; \<open>ttest\<close> is the p-value of
  \<open>stats.ttest_ind(a_vals, b_vals, equal_var=False)\<close>.
\<close>

definition gene_records ::
  "(real list \<Rightarrow> real list \<Rightarrow> fl) \<Rightarrow> real row list \<Rightarrow> string list \<Rightarrow> string list \<Rightarrow> test_record list" where
  "gene_records ttest rs samples_a samples_b =
     map (\<lambda>r.
            let a_vals = map (cell r) samples_a;
                b_vals = concat (map (\<lambda>q. map (cell q) samples_b) (loc rs (gene r)))
            in \<lparr>gene_id = gene r, mean_a = mean a_vals, mean_b = mean b_vals,
                log2_fc = fl_sub (mean a_vals) (mean b_vals),
                p_value = ttest a_vals b_vals\<rparr>)
         rs"

text \<open>
  \<open>main\<close> of the engine. The library routines are parameters: \<open>ttest\<close> is the test,
  \<open>argsort\<close> is \<open>np.argsort\<close> as \<open>benjamini_hochberg\<close> calls it, and \<open>sort_values\<close> is the row
  order that \<open>DataFrame.sort_values("p_value")\<close> computes from the column; both sorts are
  of the default kind. \<open>DataFrame.from_records\<close> of no records is a frame without columns,
  so the column lookup \<open>df["p_value"]\<close> fails there. After \<open>set_index("gene_id")\<close> the
  matrix has no column \<open>gene_id\<close>, so selecting a sample of that name fails.
\<close>

definition differential_expression_main ::
  "(real list \<Rightarrow> real list \<Rightarrow> fl) \<Rightarrow> (fl list \<Rightarrow> nat list) \<Rightarrow> (fl list \<Rightarrow> nat list) \<Rightarrow>
   real frame \<Rightarrow> metadata \<Rightarrow> error + result_table" where
  "differential_expression_main ttest argsort sort_values counts md =
     (if ''gene_id'' \<notin> set (columns counts)
      then Inl (ValueError ''Counts file must contain a 'gene_id' column.'')
      else if \<not> {''sample_id'', ''condition''} \<subseteq> set (meta_columns md)
      then Inl (ValueError ''Metadata must contain 'sample_id' and 'condition' columns.'')
      else
        case unique (map snd (meta_rows md)) of
          [cond_a, cond_b] \<Rightarrow>
            let samples_a = samples_of md cond_a;
                samples_b = samples_of md cond_b;
                missing_a = missing_from counts samples_a;
                missing_b = missing_from counts samples_b
            in if missing_a \<noteq> [] \<or> missing_b \<noteq> []
               then Inl (ValueError (''Samples missing from counts matrix: '' @
                                     join '', '' (missing_a @ missing_b)))
               else if ''gene_id'' \<in> set samples_a \<or> ''gene_id'' \<in> set samples_b
               then Inl (KeyError ''['gene_id'] not in index'')
               else
                 let records = gene_records ttest (rows counts) samples_a samples_b;
                     df_columns = (if records = [] then []
                                   else [''gene_id'', cond_a @ ''_mean'', cond_b @ ''_mean'',
                                         ''log2_fc'', ''p_value''])
                 in if ''p_value'' \<notin> set df_columns
                    then Inl (KeyError ''p_value'')
                    else
                      let p_values = map p_value records;
                          df = map2 with_p_adj records (benjamini_hochberg argsort p_values)
                      in Inr \<lparr>out_columns = df_columns @ [''p_adj''],
                              out_rows = take_idx df (sort_values p_values)\<rparr>
        | _ \<Rightarrow> Inl (ValueError ''Metadata must describe exactly two conditions.''))"

text \<open>A record of the table with the roles of the two conditions exchanged.\<close>

definition swap_roles :: "result_record \<Rightarrow> result_record" where
  "swap_roles x =
     \<lparr>gene_id = gene_id x, mean_a = mean_b x, mean_b = mean_a x,
      log2_fc = fl_neg (log2_fc x), p_value = p_value x, p_adj = p_adj x\<rparr>"

section \<open>Example inputs\<close>

text \<open>
  Scenario 1 of the specification: gene X has the value 1 in every sample, gene Y has 5 in
  the three samples of condition A and 1 in the three samples of condition B. The second
  metadata lists the samples of condition B first. The last matrix holds two genes with
  the same values.
\<close>

definition scenario1_counts :: "real frame" where
  "scenario1_counts =
     \<lparr>columns = [''gene_id'', ''S1'', ''S2'', ''S3'', ''S4'', ''S5'', ''S6''],
      rows = [\<lparr>gene = ''X'', cell = (\<lambda>c. 1)\<rparr>,
              \<lparr>gene = ''Y'', cell = (\<lambda>c. if c \<in> {''S1'', ''S2'', ''S3''} then 5 else 1)\<rparr>]\<rparr>"

definition scenario1_metadata :: metadata where
  "scenario1_metadata =
     \<lparr>meta_columns = [''sample_id'', ''condition''],
      meta_rows = [(''S1'', ''A''), (''S2'', ''A''), (''S3'', ''A''),
                   (''S4'', ''B''), (''S5'', ''B''), (''S6'', ''B'')]\<rparr>"

definition scenario1_swapped :: metadata where
  "scenario1_swapped =
     \<lparr>meta_columns = [''sample_id'', ''condition''],
      meta_rows = [(''S4'', ''B''), (''S5'', ''B''), (''S6'', ''B''),
                   (''S1'', ''A''), (''S2'', ''A''), (''S3'', ''A'')]\<rparr>"


section \<open>Array primitives: properties\<close>

lemma fold_upd_length:
  "length (fold (\<lambda>(i, v) res. res[i := v]) ps res) = length res"
  by (induction ps arbitrary: res) (auto split: prod.splits)

lemma fold_upd_notin:
  "i \<notin> fst ` set ps \<Longrightarrow> fold (\<lambda>(i, v) res. res[i := v]) ps res ! i = res ! i"
  by (induction ps arbitrary: res) (auto split: prod.splits)

lemma fold_upd_nth:
  "distinct (map fst ps) \<Longrightarrow> k < length ps \<Longrightarrow> fst (ps ! k) < length res \<Longrightarrow>
   fold (\<lambda>(i, v) res. res[i := v]) ps res ! fst (ps ! k) = snd (ps ! k)"
proof (induction ps arbitrary: res k)
  case Nil
  then show ?case by simp
next
  case (Cons a ps)
  obtain i v where a: "a = (i, v)" by (cases a)
  show ?case
  proof (cases k)
    case 0
    with Cons.prems a show ?thesis
      by (simp add: fold_upd_notin)
  next
    case (Suc m)
    with Cons.prems a Cons.IH [of m "res[i := v]"] show ?thesis
      by simp
  qed
qed

lemma length_scatter: "length (scatter d n idx vals) = n"
  by (simp add: scatter_def fold_upd_length)

lemma scatter_nth:
  assumes "distinct idx" "length vals = length idx" "k < length idx" "idx ! k < n"
  shows "scatter d n idx vals ! (idx ! k) = vals ! k"
proof -
  have "distinct (map fst (zip idx vals))"
    using assms by (simp add: map_fst_zip)
  from fold_upd_nth [OF this, of k "replicate n d"] assms show ?thesis
    by (simp add: scatter_def)
qed

lemma is_argsort_mset: "is_argsort order xs \<Longrightarrow> mset order = mset [0..<length xs]"
  unfolding is_argsort_def by (metis mset_sort)

lemma is_argsort_facts:
  assumes "is_argsort order xs"
  shows "distinct order" "set order = {0..<length xs}" "length order = length xs"
proof -
  have m: "mset order = mset [0..<length xs]" by (rule is_argsort_mset [OF assms])
  show "distinct order" using m by (metis distinct_upt mset_eq_imp_distinct_iff)
  show "set order = {0..<length xs}" using m by (metis mset_eq_setD set_upt)
  show "length order = length xs" using m by (metis mset_eq_length length_upt diff_zero)
qed

lemma is_argsort_nth_less:
  "is_argsort order xs \<Longrightarrow> k < length xs \<Longrightarrow> order ! k < length xs"
  using is_argsort_facts [of order xs] by (metis atLeastLessThan_iff nth_mem)

lemma rank_of_position:
  assumes "is_argsort order xs" "i < length xs"
  shows "\<exists>k < length xs. order ! k = i"
proof -
  have "i \<in> set order" using is_argsort_facts(2) [OF assms(1)] assms(2) by simp
  then obtain k where "k < length order" "order ! k = i" by (auto simp: in_set_conv_nth)
  then show ?thesis using is_argsort_facts(3) [OF assms(1)] by auto
qed

lemma is_argsort_sorted:
  assumes "is_argsort order (map Fin ps)" "k \<le> m" "m < length ps"
  shows "ps ! (order ! k) \<le> ps ! (order ! m)"
proof (cases "k = m")
  case True
  then show ?thesis by simp
next
  case False
  have l: "length order = length ps" using is_argsort_facts(3) [OF assms(1)] by simp
  have s: "sorted_wrt fl_le (take_idx (map Fin ps) order)"
    using assms(1) by (simp add: is_argsort_def)
  have km: "k < m" using False assms(2) by simp
  have "fl_le (take_idx (map Fin ps) order ! k) (take_idx (map Fin ps) order ! m)"
    using sorted_wrt_nth_less [OF s km] assms(3) l by (simp add: take_idx_def)
  moreover have "order ! k < length ps" "order ! m < length ps"
    using is_argsort_nth_less [OF assms(1)] km assms(3) by simp_all
  ultimately show ?thesis
    using km assms(3) l by (simp add: take_idx_def)
qed

lemma take_idx_scatter:
  assumes "distinct idx" "length vals = length idx" "set idx \<subseteq> {0..<n}"
  shows "take_idx (scatter d n idx vals) idx = vals"
proof (rule nth_equalityI)
  show "length (take_idx (scatter d n idx vals) idx) = length vals"
    using assms by (simp add: take_idx_def)
next
  fix k assume "k < length (take_idx (scatter d n idx vals) idx)"
  then have k: "k < length idx" by (simp add: take_idx_def)
  then have "idx ! k < n" using assms(3) by (metis atLeastLessThan_iff nth_mem subsetD)
  with k assms show "take_idx (scatter d n idx vals) idx ! k = vals ! k"
    by (simp add: take_idx_def scatter_nth)
qed

lemma mset_take_idx:
  assumes "mset order = mset [0..<length xs]"
  shows "mset (take_idx xs order) = mset xs"
proof -
  have "mset (take_idx xs order) = image_mset (\<lambda>i. xs ! i) (mset order)"
    by (simp add: take_idx_def)
  also have "\<dots> = mset (map (\<lambda>i. xs ! i) [0..<length xs])"
    using assms by simp
  also have "\<dots> = mset xs" by (simp add: map_nth)
  finally show ?thesis .
qed

lemma set_take_idx:
  assumes "mset order = mset [0..<length xs]"
  shows "set (take_idx xs order) = set xs"
  using mset_take_idx [OF assms] by (metis set_mset_mset)

lemma take_idx_map:
  assumes "\<forall>i \<in> set order. i < length xs"
  shows "take_idx (map f xs) order = map f (take_idx xs order)"
  using assms by (simp add: take_idx_def)

lemma accumulate_from_map:
  assumes "\<And>a b. f (g a) (g b) = g (f' a b)"
  shows "accumulate_from f (g a) (map g xs) = map g (accumulate_from f' a xs)"
  by (induction xs arbitrary: a) (simp_all add: assms)

lemma accumulate_map:
  assumes "\<And>a b. f (g a) (g b) = g (f' a b)"
  shows "accumulate f (map g xs) = map g (accumulate f' xs)"
  by (cases xs) (simp_all add: accumulate_from_map [of f g f', OF assms])

lemma length_accumulate_from: "length (accumulate_from f a xs) = length xs"
  by (induction xs arbitrary: a) simp_all

lemma length_accumulate: "length (accumulate f xs) = length xs"
  by (cases xs) (simp_all add: length_accumulate_from)

lemma accumulate_from_snoc:
  "accumulate_from f a (ys @ [x]) =
   accumulate_from f a ys @ [f (last (a # accumulate_from f a ys)) x]"
  by (induction ys arbitrary: a) simp_all

lemma accumulate_snoc:
  "ys \<noteq> [] \<Longrightarrow> accumulate f (ys @ [x]) = accumulate f ys @ [f (last (accumulate f ys)) x]"
  by (cases ys) (simp_all add: accumulate_from_snoc)

lemma suffix_min_Cons:
  "xs \<noteq> [] \<Longrightarrow> rev (accumulate f (rev (x # xs))) =
     f (hd (rev (accumulate f (rev xs)))) x # rev (accumulate f (rev xs))"
proof -
  assume "xs \<noteq> []"
  then have "accumulate f (rev xs) \<noteq> []"
    by (metis length_accumulate length_0_conv rev_is_Nil_conv)
  then show ?thesis
    using \<open>xs \<noteq> []\<close> by (simp add: accumulate_snoc hd_rev)
qed

lemma suffix_min_last:
  "xs \<noteq> [] \<Longrightarrow> rev (accumulate f (rev xs)) ! (length xs - 1) = xs ! (length xs - 1)"
proof (induction xs)
  case Nil
  then show ?case by simp
next
  case (Cons x xs)
  show ?case
  proof (cases "xs = []")
    case True
    then show ?thesis by simp
  next
    case False
    then obtain m where m: "length xs = Suc m" by (cases xs) simp_all
    with False Cons.IH suffix_min_Cons [OF False, of f x] show ?thesis
      by simp
  qed
qed

lemma suffix_min_step:
  "k + 1 < length xs \<Longrightarrow>
   rev (accumulate f (rev xs)) ! k = f (rev (accumulate f (rev xs)) ! (k + 1)) (xs ! k)"
proof (induction xs arbitrary: k)
  case Nil
  then show ?case by simp
next
  case (Cons x xs)
  then have ne: "xs \<noteq> []" by auto
  then have ne': "rev (accumulate f (rev xs)) \<noteq> []"
    by (metis length_accumulate length_0_conv rev_is_Nil_conv)
  show ?case
  proof (cases k)
    case 0
    with ne ne' suffix_min_Cons [OF ne, of f x] show ?thesis
      by (simp add: hd_conv_nth)
  next
    case (Suc m)
    with Cons.prems have "m + 1 < length xs" by simp
    from Cons.IH [OF this] ne Suc suffix_min_Cons [OF ne, of f x] show ?thesis
      by simp
  qed
qed

lemma suffix_min_le:
  fixes c :: "real list"
  assumes "k < length c"
  shows "rev (accumulate min (rev c)) ! k \<le> c ! k"
proof (cases "k + 1 < length c")
  case True
  from suffix_min_step [OF True, of min] show ?thesis by simp
next
  case False
  with assms have k: "k = length c - 1" and ne: "c \<noteq> []" by auto
  from suffix_min_last [OF ne, of min] k show ?thesis by simp
qed

section \<open>Floating-point values: properties\<close>

lemma minimum_Fin: "minimum (Fin a) (Fin b) = Fin (min a b)"
  by (simp add: minimum_def min_def)

lemma clip_Fin: "clip (Fin 0) (Fin 1) (Fin x) = Fin (min (max x 0) 1)"
  by (simp add: clip_def minimum_def maximum_def min_def max_def)

lemma fl_sub_swap: "fl_sub b a = fl_neg (fl_sub a b)"
  by (cases a; cases b) simp_all

section \<open>Benjamini-Hochberg adjustment: the adjusted values by rank\<close>

lemma candidates_nth:
  "k < length ps \<Longrightarrow> candidates order ps ! k = ps ! (order ! k) * real (length ps) / real (k + 1)"
  by (simp add: candidates_def del: upt_Suc)

lemma length_candidates: "length (candidates order ps) = length ps"
  by (simp add: candidates_def)

lemma length_adjusted_by_rank: "length (adjusted_by_rank order ps) = length ps"
  by (simp add: adjusted_by_rank_def length_accumulate length_candidates)

lemma length_bh:
  "length (benjamini_hochberg argsort ps) = length ps"
  by (simp add: benjamini_hochberg_def Let_def length_scatter)

lemma bh_Nil: "benjamini_hochberg argsort [] = []"
  using length_bh [of argsort "[]"] by simp

lemma bh_by_rank:
  assumes ord: "is_argsort (argsort (map Fin ps)) (map Fin ps)"
  shows "take_idx (benjamini_hochberg argsort (map Fin ps)) (argsort (map Fin ps)) =
         map Fin (map (\<lambda>x. min (max x 0) 1)
           (rev (accumulate min (rev (candidates (argsort (map Fin ps)) ps)))))"
proof -
  define n where "n = length ps"
  define order where "order = argsort (map Fin ps)"
  have d: "distinct order" and s: "set order = {0..<n}" and l: "length order = n"
    using is_argsort_facts [OF ord] by (simp_all add: order_def n_def)
  define ranks where "ranks = scatter (0::nat) n order [1..<n + 1]"
  have lr: "length ranks = n" by (simp add: ranks_def length_scatter)
  have r: "ranks ! (order ! k) = k + 1" if "k < n" for k
  proof -
    have "order ! k < n" using that s l by (metis atLeastLessThan_iff nth_mem)
    moreover have "[1..<n + 1] ! k = k + 1"
      using that by (simp del: upt_Suc)
    moreover have "length [1..<n + 1] = length order"
      using l by (simp del: upt_Suc)
    ultimately show ?thesis
      using that d l unfolding ranks_def by (simp only: scatter_nth)
  qed
  define adj0 where
    "adj0 = map2 (\<lambda>p r. fl_div (fl_mul p (Fin (real n))) (Fin (real r))) (map Fin ps) ranks"
  have a0: "take_idx adj0 order = map Fin (candidates order ps)"
  proof (rule nth_equalityI)
    show "length (take_idx adj0 order) = length (map Fin (candidates order ps))"
      by (simp add: take_idx_def candidates_def l n_def)
  next
    fix k assume "k < length (take_idx adj0 order)"
    then have k: "k < n" by (simp add: take_idx_def l)
    then have o: "order ! k < n" using s l by (metis atLeastLessThan_iff nth_mem)
    show "take_idx adj0 order ! k = map Fin (candidates order ps) ! k"
      using k o l lr r [OF k] by (simp add: take_idx_def adj0_def candidates_def n_def)
  qed
  define adj2 where "adj2 = map (clip (Fin 0) (Fin 1)) (rev (accumulate minimum (rev (take_idx adj0 order))))"
  have a2: "adj2 = map Fin (map (\<lambda>x. min (max x 0) 1) (rev (accumulate min (rev (candidates order ps)))))"
  proof -
    have "accumulate minimum (rev (map Fin (candidates order ps))) =
          map Fin (accumulate min (rev (candidates order ps)))"
      using accumulate_map [of minimum Fin min, OF minimum_Fin] by (simp add: rev_map)
    then show ?thesis
      unfolding adj2_def a0 by (simp add: rev_map clip_Fin)
  qed
  have la: "length (accumulate f xs) = length xs" for f :: "real \<Rightarrow> real \<Rightarrow> real" and xs
  proof -
    have "length (accumulate_from f a ys) = length ys" for a ys
      by (induction ys arbitrary: a) simp_all
    then show ?thesis by (cases xs) simp_all
  qed
  have l2: "length adj2 = length order"
    unfolding a2 by (simp add: la candidates_def l n_def)
  have "benjamini_hochberg argsort (map Fin ps) = scatter (Fin 0) n order adj2"
    by (simp add: benjamini_hochberg_def Let_def n_def order_def ranks_def adj0_def adj2_def)
  then show ?thesis
    using take_idx_scatter [OF d l2, of n "Fin 0"] s a2 by (simp add: order_def)
qed

lemma bh_nth:
  assumes ord: "is_argsort (argsort (map Fin ps)) (map Fin ps)" and k: "k < length ps"
  shows "benjamini_hochberg argsort (map Fin ps) ! (argsort (map Fin ps) ! k) =
         Fin (adjusted_by_rank (argsort (map Fin ps)) ps ! k)"
proof -
  have l: "length (argsort (map Fin ps)) = length ps"
    using is_argsort_facts(3) [OF ord] by simp
  have "take_idx (benjamini_hochberg argsort (map Fin ps)) (argsort (map Fin ps)) ! k =
        map Fin (adjusted_by_rank (argsort (map Fin ps)) ps) ! k"
    using bh_by_rank [of argsort ps] ord by (simp add: adjusted_by_rank_def clip01_def [abs_def])
  then show ?thesis
    using k l by (simp add: take_idx_def length_adjusted_by_rank)
qed

text \<open>
  Claim C1. For every list of raw p-values and every sorting permutation \<open>np.argsort\<close> may
  return, the adjusted values read in rank order are real numbers in non-decreasing order.
  For p-values in the unit interval the value at the largest rank is its candidate
  \<open>p * n / n\<close>, and the value at every other rank is the minimum of its own candidate
  \<open>p * n / k\<close> and the adjusted value of the next higher rank.
\<close>

theorem bh_cumulative_min_monotone:
  assumes ord: "is_argsort (argsort (map Fin ps)) (map Fin ps)"
  shows "\<exists>qs. take_idx (benjamini_hochberg argsort (map Fin ps)) (argsort (map Fin ps)) = map Fin qs
           \<and> length qs = length ps
           \<and> sorted qs
           \<and> ((\<forall>p \<in> set ps. 0 \<le> p \<and> p \<le> 1) \<longrightarrow>
                (ps \<noteq> [] \<longrightarrow> qs ! (length ps - 1) =
                   candidates (argsort (map Fin ps)) ps ! (length ps - 1)) \<and>
                (\<forall>k. k + 1 < length ps \<longrightarrow>
                   qs ! k = min (candidates (argsort (map Fin ps)) ps ! k) (qs ! (k + 1))))"
proof -
  define order where "order = argsort (map Fin ps)"
  define c where "c = candidates order ps"
  define s where "s = rev (accumulate min (rev c))"
  define qs where "qs = map (\<lambda>x. min (max x 0) 1) s"
  have lc: "length c = length ps" by (simp add: c_def length_candidates)
  have ls: "length s = length ps" by (simp add: s_def length_accumulate lc)
  have step: "s ! k = min (s ! (k + 1)) (c ! k)" if "k + 1 < length ps" for k
    unfolding s_def using suffix_min_step [of k c min] that lc by simp
  have lastc: "s ! (length ps - 1) = c ! (length ps - 1)" if "ps \<noteq> []"
  proof -
    from that lc have "c \<noteq> []" by auto
    from suffix_min_last [OF this, of min] lc show ?thesis by (simp add: s_def)
  qed
  have 1: "take_idx (benjamini_hochberg argsort (map Fin ps)) (argsort (map Fin ps)) = map Fin qs"
    using bh_by_rank [of argsort ps] ord by (simp add: qs_def s_def c_def order_def)
  have 2: "length qs = length ps" by (simp add: qs_def ls)
  have 3: "sorted qs"
  proof -
    have "qs ! i \<le> qs ! Suc i" if "Suc i < length qs" for i
      using that step [of i] 2 ls by (simp add: qs_def min_def max_def)
    then show ?thesis by (simp add: sorted_iff_nth_Suc)
  qed
  have 4: "(ps \<noteq> [] \<longrightarrow> qs ! (length ps - 1) = c ! (length ps - 1)) \<and>
           (\<forall>k. k + 1 < length ps \<longrightarrow> qs ! k = min (c ! k) (qs ! (k + 1)))"
    if r: "\<forall>p \<in> set ps. 0 \<le> p \<and> p \<le> 1"
  proof -
    have nn: "0 \<le> c ! k" if "k < length ps" for k
    proof -
      have "order ! k < length ps"
        using is_argsort_nth_less [OF ord] that by (simp add: order_def)
      then have "0 \<le> ps ! (order ! k)" using r by simp
      then show ?thesis using that by (simp add: c_def candidates_nth)
    qed
    have a: "qs ! (length ps - 1) = c ! (length ps - 1)" if ne: "ps \<noteq> []"
    proof -
      define m where "m = length ps - 1"
      have m: "m < length ps" "length ps = m + 1" using ne by (simp_all add: m_def)
      have "order ! m < length ps"
        using is_argsort_nth_less [OF ord] m by (simp add: order_def)
      then have "0 \<le> ps ! (order ! m) \<and> ps ! (order ! m) \<le> 1" using r by simp
      moreover have "c ! m = ps ! (order ! m)"
        using m by (simp add: c_def candidates_nth)
      ultimately show ?thesis
        using lastc [OF ne] m ls by (simp add: qs_def m_def [symmetric])
    qed
    have b: "qs ! k = min (c ! k) (qs ! (k + 1))" if "k + 1 < length ps" for k
      using step [OF that] nn [of k] that ls by (simp add: qs_def min_def max_def)
    from a b show ?thesis by blast
  qed
  from 1 2 3 4 show ?thesis unfolding c_def order_def by blast
qed

theorem bh_cumulative_min_monotone_witness:
  "is_argsort ((\<lambda>_. [1, 0]) (map Fin [1 / 2, 1 / 10])) (map Fin [1 / 2, 1 / 10]) \<and>
   (\<exists>qs. take_idx (benjamini_hochberg (\<lambda>_. [1, 0]) (map Fin [1 / 2, 1 / 10])) [1, 0] = map Fin qs
      \<and> sorted qs)"
proof -
  have h: "is_argsort ((\<lambda>_. [1, 0]) (map Fin [1 / 2, 1 / 10])) (map Fin [1 / 2, 1 / 10])"
    by (simp add: is_argsort_def take_idx_def)
  from bh_cumulative_min_monotone [of "\<lambda>_. [1, 0]" "[1 / 2, 1 / 10]"] h show ?thesis by auto
qed

subsection \<open>Equal p-values\<close>

lemma tie_adjacent:
  assumes ord: "is_argsort order (map Fin ps)" and k: "k + 1 < length ps"
    and eq: "ps ! (order ! k) = ps ! (order ! (k + 1))"
  shows "adjusted_by_rank order ps ! k = adjusted_by_rank order ps ! (k + 1)"
proof -
  define c where "c = candidates order ps"
  define s where "s = rev (accumulate min (rev c))"
  define v where "v = ps ! (order ! k)"
  have lc: "length c = length ps" by (simp add: c_def length_candidates)
  have ls: "length s = length ps" by (simp add: s_def length_accumulate lc)
  have st: "s ! k = min (s ! (k + 1)) (c ! k)"
    unfolding s_def using suffix_min_step [of k c min] k lc by simp
  have le: "s ! (k + 1) \<le> c ! (k + 1)"
    unfolding s_def using suffix_min_le [of "k + 1" c] k lc by simp
  have ck: "c ! k = v * real (length ps) / real (k + 1)"
    using k by (simp add: c_def candidates_nth v_def)
  have ck1: "c ! (k + 1) = v * real (length ps) / real (k + 2)"
    using k eq by (simp add: c_def candidates_nth v_def)
  have n: "0 < real (length ps)" using k by (cases ps) simp_all
  have "clip01 (s ! k) = clip01 (s ! (k + 1))"
  proof (cases "0 \<le> v")
    case True
    then have "0 \<le> v * real (length ps)" by simp
    then have "c ! (k + 1) \<le> c ! k"
      unfolding ck ck1 by (intro divide_left_mono) simp_all
    with le st show ?thesis by (simp add: min_def)
  next
    case False
    then have "v * real (length ps) < 0" using n by (simp add: mult_less_0_iff)
    then have "c ! k < 0" "c ! (k + 1) < 0"
      unfolding ck ck1 by (simp_all add: divide_less_0_iff)
    with le st show ?thesis by (simp add: clip01_def min_def max_def)
  qed
  then show ?thesis
    using k ls by (simp add: adjusted_by_rank_def s_def c_def)
qed

lemma tie_range:
  assumes ord: "is_argsort order (map Fin ps)" and km: "k \<le> m" and m: "m < length ps"
    and eq: "ps ! (order ! k) = ps ! (order ! m)"
  shows "adjusted_by_rank order ps ! k = adjusted_by_rank order ps ! m"
  using km m eq
proof (induction m)
  case 0
  then show ?case by simp
next
  case (Suc m)
  show ?case
  proof (cases "k = Suc m")
    case True
    then show ?thesis by simp
  next
    case False
    with Suc.prems have km: "k \<le> m" and m: "m < length ps" by simp_all
    have a: "ps ! (order ! k) \<le> ps ! (order ! m)"
      by (rule is_argsort_sorted [OF ord km m])
    have b: "ps ! (order ! m) \<le> ps ! (order ! Suc m)"
      using is_argsort_sorted [OF ord, of m "Suc m"] Suc.prems by simp
    from a b Suc.prems have e1: "ps ! (order ! k) = ps ! (order ! m)"
      and e2: "ps ! (order ! m) = ps ! (order ! (m + 1))" by simp_all
    have "adjusted_by_rank order ps ! m = adjusted_by_rank order ps ! (m + 1)"
      using tie_adjacent [OF ord _ e2] Suc.prems by simp
    with Suc.IH [OF km m e1] show ?thesis by simp
  qed
qed

lemma bh_ties_by_rank:
  assumes ord: "is_argsort order (map Fin ps)" and k: "k < length ps" and m: "m < length ps"
    and eq: "ps ! (order ! k) = ps ! (order ! m)"
  shows "adjusted_by_rank order ps ! k = adjusted_by_rank order ps ! m"
proof (cases "k \<le> m")
  case True
  then show ?thesis using tie_range [OF ord True m eq] by simp
next
  case False
  then have "m \<le> k" by simp
  from tie_range [OF ord this k eq [symmetric]] show ?thesis by simp
qed

text \<open>
  Claim C10. Two positions that hold equal raw p-values receive equal adjusted values,
  whichever sorting permutation \<open>np.argsort\<close> returns, that is whichever of the tied
  positions gets the smaller rank.
\<close>

theorem bh_ties_equal:
  assumes ord: "is_argsort (argsort (map Fin ps)) (map Fin ps)"
    and i: "i < length ps" and j: "j < length ps" and eq: "ps ! i = ps ! j"
  shows "benjamini_hochberg argsort (map Fin ps) ! i = benjamini_hochberg argsort (map Fin ps) ! j"
proof -
  define order where "order = argsort (map Fin ps)"
  have ord': "is_argsort order (map Fin ps)" using ord by (simp add: order_def)
  from rank_of_position [OF ord', of i] i obtain k where k: "k < length ps" "order ! k = i"
    by auto
  from rank_of_position [OF ord', of j] j obtain m where m: "m < length ps" "order ! m = j"
    by auto
  have "adjusted_by_rank order ps ! k = adjusted_by_rank order ps ! m"
    using bh_ties_by_rank [OF ord' k(1) m(1)] eq k(2) m(2) by simp
  then show ?thesis
    using bh_nth [of argsort ps k] bh_nth [of argsort ps m] ord k m
    by (simp add: order_def)
qed

theorem bh_ties_equal_witness:
  "is_argsort ((\<lambda>_. [2, 0, 1]) (map Fin [1 / 5, 1 / 5, 1 / 10])) (map Fin [1 / 5, 1 / 5, 1 / 10]) \<and>
   benjamini_hochberg (\<lambda>_. [2, 0, 1]) (map Fin [1 / 5, 1 / 5, 1 / 10]) ! 0 =
   benjamini_hochberg (\<lambda>_. [2, 0, 1]) (map Fin [1 / 5, 1 / 5, 1 / 10]) ! 1"
proof -
  have h: "is_argsort ((\<lambda>_. [2, 0, 1]) (map Fin [1 / 5, 1 / 5, 1 / 10])) (map Fin [1 / 5, 1 / 5, 1 / 10])"
    by (simp add: is_argsort_def take_idx_def)
  from bh_ties_equal [of "\<lambda>_. [2, 0, 1]" "[1 / 5, 1 / 5, 1 / 10]" 0 1] h show ?thesis
    by simp
qed

subsection \<open>The smallest and the largest p-value\<close>





section \<open>Validation of the inputs\<close>

lemma set_unique: "set (unique xs) = set xs"
  by (simp add: unique_def)

lemma distinct_unique: "distinct (unique xs)"
  by (simp add: unique_def)

lemma length_unique: "length (unique xs) = card (set xs)"
  using distinct_card [OF distinct_unique, of xs] by (simp add: set_unique)

lemma missing_from_Nil_iff:
  "missing_from counts samples = [] \<longleftrightarrow> set samples \<subseteq> set (columns counts)"
  by (auto simp: missing_from_def filter_empty_conv)

lemma set_missing_from:
  "set (missing_from counts samples) = {s \<in> set samples. s \<notin> set (columns counts)}"
  by (auto simp: missing_from_def)

lemma set_samples_of: "set (samples_of md c) = {s. (s, c) \<in> set (meta_rows md)}"
  by (force simp: samples_of_def)

lemma samples_of_cover:
  assumes "unique (map snd (meta_rows md)) = [cond_a, cond_b]"
  shows "set (samples_of md cond_a) \<union> set (samples_of md cond_b) = set (map fst (meta_rows md))"
proof -
  have "set (map snd (meta_rows md)) = {cond_a, cond_b}"
    using set_unique [of "map snd (meta_rows md)"] assms by simp
  then have "\<And>s c. (s, c) \<in> set (meta_rows md) \<Longrightarrow> c = cond_a \<or> c = cond_b"
    by force
  then show ?thesis
    by (force simp: set_samples_of)
qed

lemma samples_of_nonempty:
  assumes "unique (map snd (meta_rows md)) = [cond_a, cond_b]"
  shows "samples_of md cond_a \<noteq> []" "samples_of md cond_b \<noteq> []"
proof -
  have "set (map snd (meta_rows md)) = {cond_a, cond_b}"
    using set_unique [of "map snd (meta_rows md)"] assms by simp
  then have "cond_a \<in> snd ` set (meta_rows md)" "cond_b \<in> snd ` set (meta_rows md)"
    by auto
  then obtain s1 s2 where "(s1, cond_a) \<in> set (meta_rows md)" "(s2, cond_b) \<in> set (meta_rows md)"
    by auto
  then have "s1 \<in> set (samples_of md cond_a)" "s2 \<in> set (samples_of md cond_b)"
    by (simp_all add: set_samples_of)
  then show "samples_of md cond_a \<noteq> []" "samples_of md cond_b \<noteq> []" by auto
qed

text \<open>
  Claim C6. When the schema checks pass, the engine fails with the error on the number of
  conditions exactly when the condition column does not hold exactly two distinct values.
  The outcome does not depend on the rows of the matrix or on the library routines: no
  per-gene computation precedes it.
\<close>

theorem engine_two_conditions:
  assumes "''gene_id'' \<in> set (columns counts)"
    and "{''sample_id'', ''condition''} \<subseteq> set (meta_columns md)"
  shows "differential_expression_main ttest argsort sort_values counts md =
           Inl (ValueError ''Metadata must describe exactly two conditions.'')
         \<longleftrightarrow> card (snd ` set (meta_rows md)) \<noteq> 2"
proof -
  define conds where "conds = unique (map snd (meta_rows md))"
  have len: "length conds = card (snd ` set (meta_rows md))"
    by (simp add: conds_def length_unique)
  show ?thesis
  proof (cases "\<exists>a b. conds = [a, b]")
    case True
    then obtain a b where ab: "conds = [a, b]" by blast
    then have "card (snd ` set (meta_rows md)) = 2" using len by simp
    moreover have "differential_expression_main ttest argsort sort_values counts md \<noteq>
           Inl (ValueError ''Metadata must describe exactly two conditions.'')"
      using assms ab
      by (simp add: differential_expression_main_def Let_def conds_def [symmetric])
    ultimately show ?thesis by simp
  next
    case False
    then have "length conds \<noteq> 2"
      by (metis (no_types) One_nat_def Suc_1 length_0_conv length_Suc_conv)
    moreover have "differential_expression_main ttest argsort sort_values counts md =
           Inl (ValueError ''Metadata must describe exactly two conditions.'')"
      using assms False
      by (simp add: differential_expression_main_def conds_def [symmetric] split: list.splits)
    ultimately show ?thesis using len by simp
  qed
qed

theorem engine_two_conditions_witness:
  "differential_expression_main (ttest_ind (\<lambda>df t. 1)) (\<lambda>ps. []) (\<lambda>ps. [])
     \<lparr>columns = [''gene_id'', ''S1'', ''S2'', ''S3''], rows = []\<rparr>
     \<lparr>meta_columns = [''sample_id'', ''condition''],
      meta_rows = [(''S1'', ''A''), (''S2'', ''B''), (''S3'', ''C'')]\<rparr>
   = Inl (ValueError ''Metadata must describe exactly two conditions.'')"
  using engine_two_conditions [of
     "\<lparr>columns = [''gene_id'', ''S1'', ''S2'', ''S3''], rows = []\<rparr>"
     "\<lparr>meta_columns = [''sample_id'', ''condition''],
       meta_rows = [(''S1'', ''A''), (''S2'', ''B''), (''S3'', ''C'')]\<rparr>"
     "ttest_ind (\<lambda>df t. 1)" "\<lambda>ps. []" "\<lambda>ps. []"]
  by simp

text \<open>
  Claim C5. When the schema checks pass (and, for the engine, the metadata names two
  conditions), a sample of the metadata without a column makes the normalizer and the
  engine fail with the message that joins every absent sample: for the normalizer in the
  order of the metadata, for the engine those of the first condition followed by those of
  the second. When every sample has a column neither program fails with a
  \<open>ValueError\<close>. The normalizer looks the samples up in the matrix as it is after the
  optional symbol remap.
\<close>

theorem missing_samples_reported:
  assumes gid: "''gene_id'' \<in> set (columns counts)"
    and schema: "{''sample_id'', ''condition''} \<subseteq> set (meta_columns md)"
    and two: "unique (map snd (meta_rows md)) = [cond_a, cond_b]"
    and cs: "relabelled = (case ann of None \<Rightarrow> counts | Some m \<Rightarrow> apply_annotations m counts)"
    and ss: "samples = map fst (meta_rows md)"
  shows "(\<not> set samples \<subseteq> set (columns relabelled) \<longrightarrow>
            preprocess_counts_main ann counts md =
              Inl (ValueError (''Samples missing from counts matrix: '' @
                               join '', '' (missing_from relabelled samples))) \<and>
            set (missing_from relabelled samples) =
              {s \<in> set samples. s \<notin> set (columns relabelled)}) \<and>
         (set samples \<subseteq> set (columns relabelled) \<longrightarrow>
            (\<forall>msg. preprocess_counts_main ann counts md \<noteq> Inl (ValueError msg))) \<and>
         (\<not> set samples \<subseteq> set (columns counts) \<longrightarrow>
            differential_expression_main ttest argsort sort_values counts md =
              Inl (ValueError (''Samples missing from counts matrix: '' @
                               join '', '' (missing_from counts (samples_of md cond_a) @
                                            missing_from counts (samples_of md cond_b)))) \<and>
            set (missing_from counts (samples_of md cond_a) @
                 missing_from counts (samples_of md cond_b)) =
              {s \<in> set samples. s \<notin> set (columns counts)}) \<and>
         (set samples \<subseteq> set (columns counts) \<longrightarrow>
            (\<forall>msg. differential_expression_main ttest argsort sort_values counts md \<noteq>
                   Inl (ValueError msg)))"
proof -
  have gid': "''gene_id'' \<in> set (columns relabelled)"
    using gid cs by (simp add: apply_annotations_def split: option.splits)
  have cover: "set (samples_of md cond_a) \<union> set (samples_of md cond_b) = set samples"
    using samples_of_cover [OF two] ss by simp
  have n1: "\<not> set samples \<subseteq> set (columns relabelled) \<Longrightarrow>
            preprocess_counts_main ann counts md =
              Inl (ValueError (''Samples missing from counts matrix: '' @
                               join '', '' (missing_from relabelled samples)))"
    using gid schema cs ss
    by (simp add: preprocess_counts_main_def Let_def missing_from_Nil_iff)
  have n2: "set (missing_from relabelled samples) =
              {s \<in> set samples. s \<notin> set (columns relabelled)}"
    by (rule set_missing_from)
  have n3: "preprocess_counts_main ann counts md \<noteq> Inl (ValueError msg)"
    if "set samples \<subseteq> set (columns relabelled)" for msg
    using gid schema cs ss that
    by (simp add: preprocess_counts_main_def Let_def missing_from_Nil_iff)
  have e1: "differential_expression_main ttest argsort sort_values counts md =
              Inl (ValueError (''Samples missing from counts matrix: '' @
                               join '', '' (missing_from counts (samples_of md cond_a) @
                                            missing_from counts (samples_of md cond_b))))"
    if "\<not> set samples \<subseteq> set (columns counts)"
  proof -
    from that cover
    have "\<not> (set (samples_of md cond_a) \<subseteq> set (columns counts) \<and>
             set (samples_of md cond_b) \<subseteq> set (columns counts))"
      by blast
    then show ?thesis
      using gid schema two
      by (simp add: differential_expression_main_def Let_def missing_from_Nil_iff)
  qed
  have e2: "set (missing_from counts (samples_of md cond_a) @
                 missing_from counts (samples_of md cond_b)) =
              {s \<in> set samples. s \<notin> set (columns counts)}"
    using cover by (auto simp: set_missing_from)
  have e3: "differential_expression_main ttest argsort sort_values counts md \<noteq> Inl (ValueError msg)"
    if "set samples \<subseteq> set (columns counts)" for msg
  proof -
    from that cover
    have "set (samples_of md cond_a) \<subseteq> set (columns counts)"
      "set (samples_of md cond_b) \<subseteq> set (columns counts)"
      by blast+
    then show ?thesis
      using gid schema two
      by (simp add: differential_expression_main_def Let_def missing_from_Nil_iff)
  qed
  from n1 n2 n3 e1 e2 e3 show ?thesis by blast
qed

theorem missing_samples_reported_witness:
  "preprocess_counts_main None
     \<lparr>columns = [''gene_id'', ''S1'', ''S2''], rows = []\<rparr>
     \<lparr>meta_columns = [''sample_id'', ''condition''],
      meta_rows = [(''S8'', ''A''), (''S1'', ''B''), (''S2'', ''A''), (''S9'', ''B'')]\<rparr>
     = Inl (ValueError ''Samples missing from counts matrix: S8, S9'') \<and>
   differential_expression_main (ttest_ind (\<lambda>df t. 1)) (\<lambda>ps. []) (\<lambda>ps. [])
     \<lparr>columns = [''gene_id'', ''S1'', ''S2''], rows = []\<rparr>
     \<lparr>meta_columns = [''sample_id'', ''condition''],
      meta_rows = [(''S8'', ''A''), (''S1'', ''B''), (''S2'', ''A''), (''S9'', ''B'')]\<rparr>
     = Inl (ValueError ''Samples missing from counts matrix: S8, S9'')"
  using missing_samples_reported [of
     "\<lparr>columns = [''gene_id'', ''S1'', ''S2''], rows = []\<rparr>"
     "\<lparr>meta_columns = [''sample_id'', ''condition''],
       meta_rows = [(''S8'', ''A''), (''S1'', ''B''), (''S2'', ''A''), (''S9'', ''B'')]\<rparr>"
     "''A''" "''B''"
     "\<lparr>columns = [''gene_id'', ''S1'', ''S2''], rows = []\<rparr>" None
     "[''S8'', ''S1'', ''S2'', ''S9'']"
     "ttest_ind (\<lambda>df t. 1)" "\<lambda>ps. []" "\<lambda>ps. []"]
  by (simp add: unique_def samples_of_def missing_from_def)

section \<open>Count normalizer: a sample column that sums to zero\<close>

lemma column_zero:
  assumes "\<forall>r \<in> set rs. 0 \<le> cell r s" "column_sum rs s = 0" "r \<in> set rs"
  shows "cell r s = 0"
proof -
  have "\<forall>x \<in> set (map (\<lambda>r. cell r s) rs). x = 0"
    using assms(1,2) sum_list_nonneg_eq_0_iff [of "map (\<lambda>r. cell r s) rs"]
    by (auto simp: column_sum_def)
  with assms(3) show ?thesis by simp
qed

text \<open>
  Claim C7, as amended. Take an input that passes the validations of the normalizer (the
  matrix has a column \<open>gene_id\<close>, the metadata has the columns \<open>sample_id\<close> and
  \<open>condition\<close>, every sample id is a column of the matrix as it is after the optional
  symbol remap) and whose sample ids are distinct and do not include the name
  \<open>gene_id\<close>. The normalizer raises nothing and returns the normalized matrix, also when a
  sample column sums to zero: where the counts of a sample column are non-negative and sum
  to zero, every normalized value of that column is NaN.
\<close>

theorem normalizer_zero_total:
  assumes gid: "''gene_id'' \<in> set (columns counts)"
    and schema: "{''sample_id'', ''condition''} \<subseteq> set (meta_columns md)"
    and cs: "relabelled = (case ann of None \<Rightarrow> counts | Some m \<Rightarrow> apply_annotations m counts)"
    and ss: "samples = map fst (meta_rows md)"
    and present: "set samples \<subseteq> set (columns relabelled)"
    and nogid: "''gene_id'' \<notin> set samples"
    and dist: "distinct samples"
  shows "\<exists>t. preprocess_counts_main ann counts md = Inr t \<and>
             columns t = ''gene_id'' # samples \<and>
             map gene (rows t) = map gene (rows relabelled) \<and>
             (\<forall>s \<in> set samples.
                (\<forall>r \<in> set (rows relabelled). 0 \<le> cell r s) \<longrightarrow>
                column_sum (rows relabelled) s = 0 \<longrightarrow>
                (\<forall>r \<in> set (rows t). cell r s = NaN))"
proof -
  define t where "t = \<lparr>columns = ''gene_id'' # samples,
     rows = rows (log2_cpm \<lparr>columns = samples, rows = rows relabelled\<rparr>)\<rparr>"
  have 1: "preprocess_counts_main ann counts md = Inr t"
    using gid schema cs ss present nogid
    by (simp add: preprocess_counts_main_def Let_def missing_from_Nil_iff t_def log2_cpm_def)
  have 2: "columns t = ''gene_id'' # samples" by (simp add: t_def)
  have 3: "map gene (rows t) = map gene (rows relabelled)"
    by (simp add: t_def log2_cpm_def comp_def)
  have 4: "cell r s = NaN"
    if nn: "\<forall>q \<in> set (rows relabelled). 0 \<le> cell q s"
      and z: "column_sum (rows relabelled) s = 0" and r: "r \<in> set (rows t)" for r s
  proof -
    from r obtain q where q: "q \<in> set (rows relabelled)"
      and rq: "cell r s = fl_log2 (fl_add (fl_mul (fl_div (Fin (cell q s))
                  (Fin (column_sum (rows relabelled) s))) (Fin 1000000)) (Fin 1))"
      by (auto simp: t_def log2_cpm_def)
    from column_zero [OF nn z q] z rq show ?thesis
      by (simp add: inf_of_def)
  qed
  from 1 2 3 4 show ?thesis by blast
qed

theorem normalizer_zero_total_witness:
  "\<exists>t. preprocess_counts_main None
          \<lparr>columns = [''gene_id'', ''S1'', ''S2''],
           rows = [\<lparr>gene = ''g1'', cell = (\<lambda>c. if c = ''S1'' then 0 else 3)\<rparr>,
                   \<lparr>gene = ''g2'', cell = (\<lambda>c. if c = ''S1'' then 0 else 5)\<rparr>]\<rparr>
          \<lparr>meta_columns = [''sample_id'', ''condition''],
           meta_rows = [(''S1'', ''A''), (''S2'', ''B'')]\<rparr> = Inr t \<and>
        list_all (\<lambda>r. cell r ''S1'' = NaN) (rows t)"
proof -
  define c :: "real frame" where "c = \<lparr>columns = [''gene_id'', ''S1'', ''S2''],
           rows = [\<lparr>gene = ''g1'', cell = (\<lambda>c. if c = ''S1'' then 0 else 3)\<rparr>,
                   \<lparr>gene = ''g2'', cell = (\<lambda>c. if c = ''S1'' then 0 else 5)\<rparr>]\<rparr>"
  define md where "md = \<lparr>meta_columns = [''sample_id'', ''condition''],
           meta_rows = [(''S1'', ''A''), (''S2'', ''B'')]\<rparr>"
  have h1: "''gene_id'' \<in> set (columns c)" by (simp add: c_def)
  have h2: "{''sample_id'', ''condition''} \<subseteq> set (meta_columns md)" by (simp add: md_def)
  have h3: "c = (case None of None \<Rightarrow> c | Some m \<Rightarrow> apply_annotations m c)" by simp
  have h4: "[''S1'', ''S2''] = map fst (meta_rows md)" by (simp add: md_def)
  have h5: "set [''S1'', ''S2''] \<subseteq> set (columns c)" by (simp add: c_def)
  have h6: "''gene_id'' \<notin> set [''S1'', ''S2'']" by simp
  have h7: "distinct [''S1'', ''S2'']" by simp
  have nn: "\<forall>r \<in> set (rows c). 0 \<le> cell r ''S1''" by (simp add: c_def)
  have z: "column_sum (rows c) ''S1'' = 0" by (simp add: column_sum_def c_def)
  from normalizer_zero_total [OF h1 h2 h3 h4 h5 h6 h7] obtain t where
    t: "preprocess_counts_main None c md = Inr t"
    and nf: "\<forall>s \<in> set [''S1'', ''S2''].
           (\<forall>r \<in> set (rows c). 0 \<le> cell r s) \<longrightarrow> column_sum (rows c) s = 0 \<longrightarrow>
           (\<forall>r \<in> set (rows t). cell r s = NaN)"
    by blast
  from nf nn z have "\<forall>r \<in> set (rows t). cell r ''S1'' = NaN" by simp
  then have "list_all (\<lambda>r. cell r ''S1'' = NaN) (rows t)" by (simp add: list_all_iff)
  with t show ?thesis unfolding c_def md_def by blast
qed

theorem normalizer_zero_total_counterexample:
  "\<exists>t. preprocess_counts_main None
          \<lparr>columns = [''gene_id'', ''S1'', ''S2''],
           rows = [\<lparr>gene = ''g1'', cell = (\<lambda>c. if c = ''S1'' then 0 else 3)\<rparr>,
                   \<lparr>gene = ''g2'', cell = (\<lambda>c. if c = ''S1'' then 0 else 5)\<rparr>]\<rparr>
          \<lparr>meta_columns = [''sample_id'', ''condition''],
           meta_rows = [(''S1'', ''A''), (''S2'', ''B'')]\<rparr> = Inr t \<and>
        map (\<lambda>r. cell r ''S1'') (rows t) = [NaN, NaN]"
  by (simp add: preprocess_counts_main_def missing_from_def log2_cpm_def column_sum_def inf_of_def)

section \<open>Differential testing engine: the table of a valid input\<close>

text \<open>The engine on an input that passes every validation.\<close>

lemma engine_valid:
  assumes "''gene_id'' \<in> set (columns counts)"
    and "{''sample_id'', ''condition''} \<subseteq> set (meta_columns md)"
    and "unique (map snd (meta_rows md)) = [cond_a, cond_b]"
    and "set (samples_of md cond_a) \<subseteq> set (columns counts)"
    and "set (samples_of md cond_b) \<subseteq> set (columns counts)"
    and "''gene_id'' \<notin> set (samples_of md cond_a)"
    and "''gene_id'' \<notin> set (samples_of md cond_b)"
  shows "differential_expression_main ttest argsort sort_values counts md =
    (let records = gene_records ttest (rows counts) (samples_of md cond_a) (samples_of md cond_b);
         p_values = map p_value records
     in if records = [] then Inl (KeyError ''p_value'')
        else Inr \<lparr>out_columns = [''gene_id'', cond_a @ ''_mean'', cond_b @ ''_mean'',
                                  ''log2_fc'', ''p_value'', ''p_adj''],
                  out_rows = take_idx (map2 with_p_adj records (benjamini_hochberg argsort p_values))
                               (sort_values p_values)\<rparr>)"
  using assms
  by (simp add: differential_expression_main_def Let_def missing_from_Nil_iff)

lemma length_gene_records [simp]:
  "length (gene_records ttest rs sa sb) = length rs"
  by (simp add: gene_records_def)


lemma with_p_adj_in_zip:
  assumes "x \<in> set rs" "length qs = length rs"
  shows "\<exists>q. with_p_adj x q \<in> set (map2 with_p_adj rs qs)"
proof -
  from assms(1) obtain i where i: "i < length rs" "rs ! i = x" by (auto simp: in_set_conv_nth)
  then have "map2 with_p_adj rs qs ! i = with_p_adj x (qs ! i)" using assms(2) by simp
  moreover have "i < length (map2 with_p_adj rs qs)" using i assms(2) by simp
  ultimately show ?thesis by (metis nth_mem)
qed

lemma loc_distinct:
  "distinct (map gene rs) \<Longrightarrow> r \<in> set rs \<Longrightarrow> loc rs (gene r) = [r]"
proof (induction rs)
  case Nil
  then show ?case by simp
next
  case (Cons q rs)
  show ?case
  proof (cases "r = q")
    case True
    have "gene q \<notin> gene ` set rs" using Cons.prems(1) by simp
    then have "\<forall>x \<in> set rs. gene x \<noteq> gene q" by (metis imageI)
    then have "filter (\<lambda>x. gene x = gene q) rs = []"
      by (simp add: filter_empty_conv)
    with True show ?thesis by (simp add: loc_def)
  next
    case False
    with Cons.prems have "r \<in> set rs" "gene q \<noteq> gene r" by auto
    with Cons show ?thesis by (simp add: loc_def)
  qed
qed

lemma gene_records_distinct:
  assumes "distinct (map gene rs)"
  shows "gene_records ttest rs sa sb =
         map (\<lambda>r. \<lparr>gene_id = gene r, mean_a = mean (map (cell r) sa),
                    mean_b = mean (map (cell r) sb),
                    log2_fc = fl_sub (mean (map (cell r) sa)) (mean (map (cell r) sb)),
                    p_value = ttest (map (cell r) sa) (map (cell r) sb)\<rparr>) rs"
  unfolding gene_records_def
  by (rule map_cong) (simp_all add: loc_distinct [OF assms] Let_def)

subsection \<open>The example inputs\<close>

lemma scenario1_conditions:
  "unique (map snd (meta_rows scenario1_metadata)) = [''A'', ''B'']"
  "unique (map snd (meta_rows scenario1_swapped)) = [''B'', ''A'']"
  by (simp_all add: scenario1_metadata_def scenario1_swapped_def unique_def)

lemma scenario1_samples:
  "samples_of scenario1_metadata ''A'' = [''S1'', ''S2'', ''S3'']"
  "samples_of scenario1_metadata ''B'' = [''S4'', ''S5'', ''S6'']"
  "samples_of scenario1_swapped ''A'' = [''S1'', ''S2'', ''S3'']"
  "samples_of scenario1_swapped ''B'' = [''S4'', ''S5'', ''S6'']"
  by (simp_all add: scenario1_metadata_def scenario1_swapped_def samples_of_def)

lemma scenario1_valid:
  "''gene_id'' \<in> set (columns scenario1_counts)"
  "{''sample_id'', ''condition''} \<subseteq> set (meta_columns scenario1_metadata)"
  "{''sample_id'', ''condition''} \<subseteq> set (meta_columns scenario1_swapped)"
  "set [''S1'', ''S2'', ''S3''] \<subseteq> set (columns scenario1_counts)"
  "set [''S4'', ''S5'', ''S6''] \<subseteq> set (columns scenario1_counts)"
  "distinct (map gene (rows scenario1_counts))"
  "rows scenario1_counts \<noteq> []"
  by (simp_all add: scenario1_counts_def scenario1_metadata_def scenario1_swapped_def)

lemma ttest_ind_scenario1:
  "ttest_ind t_sf [1, 1, 1] [1, 1, 1] = NaN"
  "ttest_ind t_sf [5, 5, 5] [1, 1, 1] = Fin 0"
  by (simp_all add: ttest_ind_def variance_def mean_real_def)

lemma scenario1_records:
  "gene_records (ttest_ind t_sf) (rows scenario1_counts) [''S1'', ''S2'', ''S3''] [''S4'', ''S5'', ''S6''] =
     [\<lparr>gene_id = ''X'', mean_a = Fin 1, mean_b = Fin 1, log2_fc = Fin 0, p_value = NaN\<rparr>,
      \<lparr>gene_id = ''Y'', mean_a = Fin 5, mean_b = Fin 1, log2_fc = Fin 4, p_value = Fin 0\<rparr>]"
  by (simp add: gene_records_def scenario1_counts_def loc_def mean_def ttest_ind_scenario1)


lemma bh_scenario1: "benjamini_hochberg (\<lambda>ps. [1, 0]) [NaN, Fin 0] = [NaN, NaN]"
  by (simp add: benjamini_hochberg_def scatter_def take_idx_def minimum_def clip_def maximum_def)


lemma is_argsort_scenario1: "is_argsort [1, 0] [NaN, Fin 0]"
  by (simp add: is_argsort_def take_idx_def)


subsection \<open>No genes\<close>

text \<open>
  Claim C4. On a normalized matrix without genes and otherwise valid input the loop
  produces no record, the frame built from no records has no column \<open>p_value\<close>, and the
  engine stops with \<open>KeyError\<close> at the lookup of that column; it does not emit an empty
  table. The correction itself maps no p-values to no adjusted values.
\<close>

theorem engine_empty_gene_set:
  assumes "''gene_id'' \<in> set (columns counts)"
    and "{''sample_id'', ''condition''} \<subseteq> set (meta_columns md)"
    and "unique (map snd (meta_rows md)) = [cond_a, cond_b]"
    and "set (samples_of md cond_a) \<subseteq> set (columns counts)"
    and "set (samples_of md cond_b) \<subseteq> set (columns counts)"
    and "''gene_id'' \<notin> set (samples_of md cond_a)"
    and "''gene_id'' \<notin> set (samples_of md cond_b)"
    and "rows counts = []"
  shows "differential_expression_main ttest argsort sort_values counts md = Inl (KeyError ''p_value'')
         \<and> benjamini_hochberg argsort [] = []"
  using engine_valid [OF assms(1-7), of ttest argsort sort_values] assms(8)
  by (simp add: gene_records_def bh_Nil)

theorem engine_empty_gene_set_witness:
  "differential_expression_main (ttest_ind (\<lambda>df t. 1)) (\<lambda>ps. []) (\<lambda>ps. [])
     \<lparr>columns = [''gene_id'', ''S1'', ''S2'', ''S3'', ''S4''], rows = []\<rparr>
     \<lparr>meta_columns = [''sample_id'', ''condition''],
      meta_rows = [(''S1'', ''A''), (''S2'', ''A''), (''S3'', ''B''), (''S4'', ''B'')]\<rparr>
   = Inl (KeyError ''p_value'')"
  using engine_empty_gene_set [of
     "\<lparr>columns = [''gene_id'', ''S1'', ''S2'', ''S3'', ''S4''], rows = []\<rparr>"
     "\<lparr>meta_columns = [''sample_id'', ''condition''],
       meta_rows = [(''S1'', ''A''), (''S2'', ''A''), (''S3'', ''B''), (''S4'', ''B'')]\<rparr>"
     "''A''" "''B''" "ttest_ind (\<lambda>df t. 1)" "\<lambda>ps. []" "\<lambda>ps. []"]
  by (simp add: unique_def samples_of_def)

subsection \<open>Order of the emitted table\<close>




subsection \<open>A gene with constant values\<close>

lemma gene_records_constant_row:
  assumes d: "distinct (map gene rs)" and r: "r \<in> set rs"
    and c: "\<forall>s \<in> set sa \<union> set sb. cell r s = v"
  shows "\<exists>x \<in> set (gene_records ttest rs sa sb).
           gene_id x = gene r \<and>
           p_value x = ttest (replicate (length sa) v) (replicate (length sb) v)"
proof -
  have a: "map (cell r) sa = replicate (length sa) v"
    using c by (simp add: map_replicate_const [symmetric])
  have b: "map (cell r) sb = replicate (length sb) v"
    using c by (simp add: map_replicate_const [symmetric])
  define x where
    "x = \<lparr>gene_id = gene r, mean_a = mean (map (cell r) sa), mean_b = mean (map (cell r) sb),
          log2_fc = fl_sub (mean (map (cell r) sa)) (mean (map (cell r) sb)),
          p_value = ttest (map (cell r) sa) (map (cell r) sb)\<rparr>"
  have "x \<in> set (gene_records ttest rs sa sb)"
    unfolding gene_records_distinct [OF d] x_def using r by (simp add: image_iff) blast
  moreover have "gene_id x = gene r"
    "p_value x = ttest (replicate (length sa) v) (replicate (length sb) v)"
    by (simp_all add: x_def a b)
  ultimately show ?thesis by blast
qed

text \<open>
  Claim C2, as amended. Take an input that passes the validations of the engine (the
  matrix has a column \<open>gene_id\<close>, the metadata has the columns \<open>sample_id\<close> and
  \<open>condition\<close> and names exactly two conditions, every sample is a column of the matrix,
  no sample is named \<open>gene_id\<close>), with distinct gene labels, and a row order of the library
  sort that is a permutation ascending in the p-value. For every gene whose values are one
  and the same number in all samples of both groups the engine does not fail, and the raw
  p-value it emits for the gene is what the library test returns for the two constant
  groups, passed on unchanged: the engine has no rule of its own for zero variance. The
  value is therefore not 1 in general; for gene X of Scenario 1 it is NaN.
\<close>

theorem degenerate_gene_p_value:
  assumes "''gene_id'' \<in> set (columns counts)"
    and "{''sample_id'', ''condition''} \<subseteq> set (meta_columns md)"
    and two: "unique (map snd (meta_rows md)) = [cond_a, cond_b]"
    and "set (samples_of md cond_a) \<subseteq> set (columns counts)"
    and "set (samples_of md cond_b) \<subseteq> set (columns counts)"
    and "''gene_id'' \<notin> set (samples_of md cond_a)"
    and "''gene_id'' \<notin> set (samples_of md cond_b)"
    and d: "distinct (map gene (rows counts))"
    and r: "r \<in> set (rows counts)"
    and c: "\<forall>s \<in> set (samples_of md cond_a) \<union> set (samples_of md cond_b). cell r s = v"
    and recs: "records = gene_records ttest (rows counts) (samples_of md cond_a) (samples_of md cond_b)"
    and srt: "is_argsort (sort_values (map p_value records)) (map p_value records)"
  shows "\<exists>t. differential_expression_main ttest argsort sort_values counts md = Inr t \<and>
             (\<exists>x \<in> set (out_rows t).
                gene_id x = gene r \<and>
                p_value x = ttest (replicate (length (samples_of md cond_a)) v)
                                  (replicate (length (samples_of md cond_b)) v))"
proof -
  define ps where "ps = map p_value records"
  define df where "df = map2 with_p_adj records (benjamini_hochberg argsort ps)"
  define t where "t = \<lparr>out_columns = [''gene_id'', cond_a @ ''_mean'', cond_b @ ''_mean'',
                                  ''log2_fc'', ''p_value'', ''p_adj''],
                  out_rows = take_idx df (sort_values ps)\<rparr>"
  from gene_records_constant_row [OF d r c, of ttest] obtain x0 where
    x0: "x0 \<in> set records" and g: "gene_id x0 = gene r"
    and p: "p_value x0 = ttest (replicate (length (samples_of md cond_a)) v)
                               (replicate (length (samples_of md cond_b)) v)"
    unfolding recs by blast
  from x0 have rne: "records \<noteq> []" by auto
  have 1: "differential_expression_main ttest argsort sort_values counts md = Inr t"
    using engine_valid [OF assms(1-7), of ttest argsort sort_values] rne recs
    by (simp add: Let_def t_def df_def ps_def)
  have ldf: "length df = length ps"
    by (simp add: df_def ps_def length_bh)
  have "length (benjamini_hochberg argsort ps) = length records"
    by (simp add: length_bh ps_def)
  from with_p_adj_in_zip [OF x0 this]
  obtain q where q: "with_p_adj x0 q \<in> set df"
    unfolding df_def by blast
  have "mset (sort_values ps) = mset [0..<length df]"
    using is_argsort_mset [of "sort_values ps" ps] srt ldf by (simp add: ps_def)
  then have "set (out_rows t) = set df"
    using set_take_idx [of "sort_values ps" df] by (simp add: t_def)
  with q have "with_p_adj x0 q \<in> set (out_rows t)" by simp
  moreover have "gene_id (with_p_adj x0 q) = gene r"
    "p_value (with_p_adj x0 q) = ttest (replicate (length (samples_of md cond_a)) v)
                                       (replicate (length (samples_of md cond_b)) v)"
    using g p by (simp_all add: with_p_adj_def)
  ultimately show ?thesis using 1 by blast
qed

theorem degenerate_gene_p_value_witness:
  "\<exists>t. differential_expression_main (ttest_ind (\<lambda>df t. 1 / 2)) (\<lambda>ps. [1, 0]) (\<lambda>ps. [1, 0])
          scenario1_counts scenario1_metadata = Inr t \<and>
       (\<exists>x \<in> set (out_rows t). gene_id x = ''X'' \<and> p_value x = NaN)"
  using degenerate_gene_p_value [where counts = scenario1_counts and md = scenario1_metadata
      and cond_a = "''A''" and cond_b = "''B''" and r = "\<lparr>gene = ''X'', cell = (\<lambda>c. 1)\<rparr>"
      and v = 1 and ttest = "ttest_ind (\<lambda>df t. 1 / 2)" and sort_values = "\<lambda>ps. [1, 0]"
      and argsort = "\<lambda>ps. [1, 0]"
      and records = "gene_records (ttest_ind (\<lambda>df t. 1 / 2)) (rows scenario1_counts)
                       [''S1'', ''S2'', ''S3''] [''S4'', ''S5'', ''S6'']"]
    scenario1_valid is_argsort_scenario1
  by (simp add: scenario1_conditions scenario1_samples scenario1_records ttest_ind_scenario1)
     (simp add: scenario1_counts_def)

theorem degenerate_gene_p_value_counterexample:
  "differential_expression_main (ttest_ind (\<lambda>df t. 1 / 2)) (\<lambda>ps. [1, 0]) (\<lambda>ps. [1, 0])
     scenario1_counts scenario1_metadata =
   Inr \<lparr>out_columns = [''gene_id'', ''A_mean'', ''B_mean'', ''log2_fc'', ''p_value'', ''p_adj''],
        out_rows =
          [\<lparr>gene_id = ''Y'', mean_a = Fin 5, mean_b = Fin 1, log2_fc = Fin 4,
            p_value = Fin 0, p_adj = NaN\<rparr>,
           \<lparr>gene_id = ''X'', mean_a = Fin 1, mean_b = Fin 1, log2_fc = Fin 0,
            p_value = NaN, p_adj = NaN\<rparr>]\<rparr>"
proof -
  have "differential_expression_main (ttest_ind (\<lambda>df t. 1 / 2)) (\<lambda>ps. [1, 0]) (\<lambda>ps. [1, 0])
     scenario1_counts scenario1_metadata =
     (let records = gene_records (ttest_ind (\<lambda>df t. 1 / 2)) (rows scenario1_counts)
                      (samples_of scenario1_metadata ''A'') (samples_of scenario1_metadata ''B'');
         p_values = map p_value records
     in if records = [] then Inl (KeyError ''p_value'')
        else Inr \<lparr>out_columns = [''gene_id'', ''A'' @ ''_mean'', ''B'' @ ''_mean'',
                                  ''log2_fc'', ''p_value'', ''p_adj''],
                  out_rows = take_idx (map2 with_p_adj records
                                         (benjamini_hochberg (\<lambda>ps. [1, 0]) p_values))
                               ((\<lambda>ps. [1, 0]) p_values)\<rparr>)"
    by (rule engine_valid)
       (simp_all add: scenario1_conditions scenario1_samples,
        simp_all add: scenario1_counts_def scenario1_metadata_def)
  then show ?thesis
    by (simp add: scenario1_samples scenario1_records bh_scenario1 [unfolded One_nat_def]
        take_idx_def with_p_adj_def Let_def)
qed

subsection \<open>Exchanging the two conditions\<close>

lemma ttest_ind_commute: "ttest_ind t_sf a b = ttest_ind t_sf b a"
proof -
  have 1: "\<bar>(mean_real a - mean_real b) / s\<bar> = \<bar>(mean_real b - mean_real a) / s\<bar>" for s
    by (simp add: abs_minus_commute)
  have 2: "(mean_real a - mean_real b = 0) = (mean_real b - mean_real a = 0)"
    by auto
  have 3: "variance a / real (length a) + variance b / real (length b) =
           variance b / real (length b) + variance a / real (length a)"
    by simp
  have 4: "(variance a / real (length a))\<^sup>2 / (real (length a) - 1) +
           (variance b / real (length b))\<^sup>2 / (real (length b) - 1) =
           (variance b / real (length b))\<^sup>2 / (real (length b) - 1) +
           (variance a / real (length a))\<^sup>2 / (real (length a) - 1)"
    by simp
  show ?thesis
    unfolding ttest_ind_def Let_def 1 2 3 4 by (simp add: disj_commute)
qed

lemma swap_with_p_adj:
  "swap_roles (with_p_adj x q) =
   with_p_adj \<lparr>gene_id = gene_id x, mean_a = mean_b x, mean_b = mean_a x,
               log2_fc = fl_neg (log2_fc x), p_value = p_value x\<rparr> q"
  by (simp add: swap_roles_def with_p_adj_def)

lemma map2_map_left: "map2 f (map g xs) ys = map2 (\<lambda>x y. f (g x) y) xs ys"
  by (induction xs ys rule: list_induct2') simp_all

lemma map_map2: "map h (map2 f xs ys) = map2 (\<lambda>x y. h (f x y)) xs ys"
  by (induction xs ys rule: list_induct2') simp_all

text \<open>
  Claim C9. Take a valid input with distinct gene labels and a second metadata that names
  the same samples under the same two conditions but lists the other condition first.
  For a two-sample test that is symmetric in its two groups, as the two-sided Welch test
  is, the two runs emit tables with the same genes in the same order, the same raw and
  adjusted p-values, the two means exchanged and every \<open>log2_fc\<close> negated.
\<close>

theorem swap_conditions:
  assumes "''gene_id'' \<in> set (columns counts)"
    and "{''sample_id'', ''condition''} \<subseteq> set (meta_columns md)"
    and "unique (map snd (meta_rows md)) = [cond_a, cond_b]"
    and "set (samples_of md cond_a) \<subseteq> set (columns counts)"
    and "set (samples_of md cond_b) \<subseteq> set (columns counts)"
    and "''gene_id'' \<notin> set (samples_of md cond_a)"
    and "''gene_id'' \<notin> set (samples_of md cond_b)"
    and schema': "{''sample_id'', ''condition''} \<subseteq> set (meta_columns md')"
    and two': "unique (map snd (meta_rows md')) = [cond_b, cond_a]"
    and sa: "samples_of md' cond_a = samples_of md cond_a"
    and sb: "samples_of md' cond_b = samples_of md cond_b"
    and d: "distinct (map gene (rows counts))"
    and ne: "rows counts \<noteq> []"
    and sym: "\<And>a b. ttest a b = ttest b a"
    and recs: "records = gene_records ttest (rows counts) (samples_of md cond_a) (samples_of md cond_b)"
    and srt: "is_argsort (sort_values (map p_value records)) (map p_value records)"
  shows "\<exists>t t'. differential_expression_main ttest argsort sort_values counts md = Inr t \<and>
           differential_expression_main ttest argsort sort_values counts md' = Inr t' \<and>
           map gene_id (out_rows t') = map gene_id (out_rows t) \<and>
           map log2_fc (out_rows t') = map (\<lambda>x. fl_neg (log2_fc x)) (out_rows t) \<and>
           map p_value (out_rows t') = map p_value (out_rows t) \<and>
           map p_adj (out_rows t') = map p_adj (out_rows t) \<and>
           map mean_a (out_rows t') = map mean_b (out_rows t) \<and>
           map mean_b (out_rows t') = map mean_a (out_rows t)"
proof -
  define records' where
    "records' = gene_records ttest (rows counts) (samples_of md cond_b) (samples_of md cond_a)"
  define ps where "ps = map p_value records"
  define df where "df = map2 with_p_adj records (benjamini_hochberg argsort ps)"
  define df' where "df' = map2 with_p_adj records' (benjamini_hochberg argsort ps)"
  define t where "t = \<lparr>out_columns = [''gene_id'', cond_a @ ''_mean'', cond_b @ ''_mean'',
                                  ''log2_fc'', ''p_value'', ''p_adj''],
                  out_rows = take_idx df (sort_values ps)\<rparr>"
  define t' where "t' = \<lparr>out_columns = [''gene_id'', cond_b @ ''_mean'', cond_a @ ''_mean'',
                                  ''log2_fc'', ''p_value'', ''p_adj''],
                  out_rows = take_idx df' (sort_values ps)\<rparr>"
  have rne: "records \<noteq> []" "records' \<noteq> []"
    using ne recs by (simp_all add: gene_records_def records'_def)
  have r': "records' = map (\<lambda>x. \<lparr>gene_id = gene_id x, mean_a = mean_b x, mean_b = mean_a x,
               log2_fc = fl_neg (log2_fc x), p_value = p_value x\<rparr>) records"
    unfolding records'_def recs gene_records_distinct [OF d]
    by (simp add: fl_sub_swap [symmetric] sym [of "map (cell _) (samples_of md cond_b)"])
  have ps': "map p_value records' = ps"
    by (simp add: r' ps_def comp_def)
  have 1: "differential_expression_main ttest argsort sort_values counts md = Inr t"
    using engine_valid [OF assms(1-7), of ttest argsort sort_values] rne recs
    by (simp add: Let_def t_def df_def ps_def)
  have 2: "differential_expression_main ttest argsort sort_values counts md' = Inr t'"
    using engine_valid [OF assms(1) schema' two', of ttest argsort sort_values] assms(4-7) sa sb rne ps'
    by (simp add: Let_def t'_def df'_def records'_def [symmetric])
  have df'': "df' = map swap_roles df"
    unfolding df'_def df_def r'
    by (auto simp: map2_map_left map_map2 swap_with_p_adj)
  have ldf: "length df = length ps"
    by (simp add: df_def ps_def length_bh)
  have inb: "\<forall>i \<in> set (sort_values ps). i < length df"
    using is_argsort_facts(2) [of "sort_values ps" ps] srt ldf by (simp add: ps_def)
  have rows': "out_rows t' = map swap_roles (out_rows t)"
    using take_idx_map [OF inb, of swap_roles] by (simp add: t_def t'_def df'')
  have 3: "map gene_id (out_rows t') = map gene_id (out_rows t)"
    "map log2_fc (out_rows t') = map (\<lambda>x. fl_neg (log2_fc x)) (out_rows t)"
    "map p_value (out_rows t') = map p_value (out_rows t)"
    "map p_adj (out_rows t') = map p_adj (out_rows t)"
    "map mean_a (out_rows t') = map mean_b (out_rows t)"
    "map mean_b (out_rows t') = map mean_a (out_rows t)"
    by (simp_all add: rows' comp_def swap_roles_def)
  from 1 2 3 show ?thesis by blast
qed

theorem swap_conditions_witness:
  "\<exists>t t'. differential_expression_main (ttest_ind (\<lambda>df t. 1 / 2)) (\<lambda>ps. [1, 0]) (\<lambda>ps. [1, 0])
             scenario1_counts scenario1_metadata = Inr t \<and>
           differential_expression_main (ttest_ind (\<lambda>df t. 1 / 2)) (\<lambda>ps. [1, 0]) (\<lambda>ps. [1, 0])
             scenario1_counts scenario1_swapped = Inr t' \<and>
           map gene_id (out_rows t') = map gene_id (out_rows t) \<and>
           map log2_fc (out_rows t') = map (\<lambda>x. fl_neg (log2_fc x)) (out_rows t) \<and>
           map p_value (out_rows t') = map p_value (out_rows t) \<and>
           map p_adj (out_rows t') = map p_adj (out_rows t) \<and>
           map mean_a (out_rows t') = map mean_b (out_rows t) \<and>
           map mean_b (out_rows t') = map mean_a (out_rows t)"
  using swap_conditions [where counts = scenario1_counts and md = scenario1_metadata
      and md' = scenario1_swapped
      and cond_a = "''A''" and cond_b = "''B''"
      and ttest = "ttest_ind (\<lambda>df t. 1 / 2)" and sort_values = "\<lambda>ps. [1, 0]"
      and argsort = "\<lambda>ps. [1, 0]"
      and records = "gene_records (ttest_ind (\<lambda>df t. 1 / 2)) (rows scenario1_counts)
                       [''S1'', ''S2'', ''S3''] [''S4'', ''S5'', ''S6'']"]
    scenario1_valid is_argsort_scenario1 ttest_ind_commute [of "\<lambda>df t. 1 / 2"]
  by (simp add: scenario1_conditions scenario1_samples scenario1_records)

end
